theory Spec2Isabelle
  imports Complex_Main "HOL-Library.Sublist"
begin

section \<open>Numbers and errors\<close>

text \<open>
  The program computes on Python floats, which are IEEE 754 binary64 numbers. Two readings
  of the arithmetic are given.

  In the exact reading a float is a real number, every literal is the decimal fraction
  the source writes (\<open>31.5\<close>, \<open>1.07\<close>, \<open>273.15\<close>), and \<open>+\<close>, \<open>-\<close>, \<open>*\<close>,
  \<open>/\<close>, \<open>exp\<close>, \<open>cos\<close>, \<open>sin\<close> are the exact operations. It carries the
  properties that do not turn on the last bit of a result: ranges, monotonicity,
  thresholds, the agreement of the two files.

  In the rounded reading every literal and every arithmetic result passes through a
  rounding operator \<open>fl\<close>, as the hardware rounds it. It carries the statements of an
  exact output: the integer score, the reading rounded to one decimal. The definitions
  of this reading have the suffix \<open>_fl\<close> or take \<open>fl\<close> as their first argument; with
  the identity for \<open>fl\<close> they are the exact reading. \<open>fl64\<close> is rounding to the nearest
  binary64 number, ties to even, with a significand of 53 bits; the exponent is not
  bounded, so that overflow beyond the largest double and the subnormal numbers are
  outside the model. The arguments of a function of the rounded reading (a temperature,
  a nutritional index) are the values of the floats the program holds.
\<close>

datatype py_error =
  ZeroDivisionError | KeyError | IndexError | TypeError | JSONDecodeError | RequestException

definition py_truediv :: "real \<Rightarrow> real \<Rightarrow> py_error + real" where
  \<comment> \<open>Python's \<open>a / b\<close> on floats raises on a zero divisor.\<close>
  "py_truediv a b = (if b = 0 then Inl ZeroDivisionError else Inr (a / b))"

definition py_int :: "real \<Rightarrow> int" where
  \<comment> \<open>Python's \<open>int(x)\<close> on a float truncates toward zero.\<close>
  "py_int x = (if 0 \<le> x then \<lfloor>x\<rfloor> else \<lceil>x\<rceil>)"

definition round_half_even :: "real \<Rightarrow> int" where
  \<comment> \<open>Nearest integer, a tie going to the even neighbour.\<close>
  "round_half_even y =
     (let f = \<lfloor>y\<rfloor>; d = y - of_int f in
      if d < 1/2 then f else if 1/2 < d then f + 1 else if even f then f else f + 1)"

definition binade :: "real \<Rightarrow> int" where
  \<comment> \<open>The exponent \<open>e\<close> with \<open>2 ^ e \<le> |x| < 2 ^ (e + 1)\<close>, for \<open>x\<close> other than zero.\<close>
  "binade x = \<lfloor>log 2 \<bar>x\<bar>\<rfloor>"

definition fl64 :: "real \<Rightarrow> real" where
  \<comment> \<open>Round to nearest, ties to even, on the grid of spacing \<open>2 ^ (e - 52)\<close>.\<close>
  "fl64 x =
     (if x = 0 then 0
      else let s = 2 powr (of_int (binade x) - 52)
           in of_int (round_half_even (x / s)) * s)"

definition ieee_like :: "(real \<Rightarrow> real) \<Rightarrow> bool" where
  \<comment> \<open>What the proofs use of a rounding operator: it is monotone, it leaves its own
      results alone, it is exact on the integers up to \<open>2 ^ 53\<close>, and the difference of
      two distinct representable numbers does not round to zero.\<close>
  "ieee_like fl \<longleftrightarrow>
     (\<forall>x y. x \<le> y \<longrightarrow> fl x \<le> fl y)
     \<and> (\<forall>x. fl (fl x) = fl x)
     \<and> (\<forall>n::int. \<bar>n\<bar> \<le> 2 ^ 53 \<longrightarrow> fl (of_int n) = of_int n)
     \<and> (\<forall>x y. fl x = x \<and> fl y = y \<and> x \<noteq> y \<longrightarrow> fl (x - y) \<noteq> 0)"

definition py_truediv_fl :: "(real \<Rightarrow> real) \<Rightarrow> real \<Rightarrow> real \<Rightarrow> py_error + real" where
  \<comment> \<open>\<open>a / b\<close> with the quotient rounded.\<close>
  "py_truediv_fl fl a b = (if b = 0 then Inl ZeroDivisionError else Inr (fl (a / b)))"



definition and_then :: "py_error + 'a \<Rightarrow> ('a \<Rightarrow> py_error + 'b) \<Rightarrow> py_error + 'b" where
  \<comment> \<open>Sequencing of statements, the first raised exception ending the block.\<close>
  "and_then m f = (case m of Inl e \<Rightarrow> Inl e | Inr x \<Rightarrow> f x)"

section \<open>Temperature acquisition (stefpro.py, lines 25 to 74)\<close>













section \<open>Risk engine (stefpro.py, lines 322 to 357)\<close>

definition temp_shift :: "string \<Rightarrow> real" where
  \<comment> \<open>\<open>"1.5" in scenario\<close> is a substring test.\<close>
  "temp_shift scenario =
     (if sublist ''1.5'' scenario then 1.5
      else if sublist ''3.2'' scenario then 3.2
      else 0.0)"

definition base_limit :: real where
  "base_limit = 31.5"

definition starvation_penalty :: "real \<Rightarrow> real" where
  "starvation_penalty ni = 1.07 * (1 - ni)"

definition T_critical :: "real \<Rightarrow> real" where
  "T_critical ni = base_limit - starvation_penalty ni"

definition risk_block :: "real \<Rightarrow> real \<Rightarrow> py_error + (int \<times> string)" where
  \<comment> \<open>The \<open>if/elif/else\<close> chain that sets \<open>risk\<close> and \<open>status\<close>.\<close>
  "risk_block T ni =
     (let Tc = T_critical ni in
      if T \<ge> Tc then Inr (100, ''LETHAL'')
      else if T \<ge> Tc - 2 then
        and_then (py_truediv (T - (Tc - 2)) 2) (\<lambda>q. Inr (py_int (75 + q * 25), ''CRITICAL''))
      else if T \<ge> 25 then
        and_then (py_truediv (T - 25) (Tc - 2 - 25)) (\<lambda>q. Inr (py_int (50 + q * 25), ''HIGH RISK''))
      else
        and_then (py_truediv T 25) (\<lambda>q. Inr (py_int (q * 50), ''STABLE'')))"

text \<open>The same statements in the rounded reading.\<close>

definition base_limit_fl :: "(real \<Rightarrow> real) \<Rightarrow> real" where
  "base_limit_fl fl = fl 31.5"

definition starvation_penalty_fl :: "(real \<Rightarrow> real) \<Rightarrow> real \<Rightarrow> real" where
  "starvation_penalty_fl fl ni = fl (fl 1.07 * fl (1 - ni))"

definition T_critical_fl :: "(real \<Rightarrow> real) \<Rightarrow> real \<Rightarrow> real" where
  "T_critical_fl fl ni = fl (base_limit_fl fl - starvation_penalty_fl fl ni)"

definition risk_block_fl :: "(real \<Rightarrow> real) \<Rightarrow> real \<Rightarrow> real \<Rightarrow> py_error + (int \<times> string)" where
  "risk_block_fl fl T ni =
     (let Tc = T_critical_fl fl ni in
      if T \<ge> Tc then Inr (100, ''LETHAL'')
      else if T \<ge> fl (Tc - 2) then
        and_then (py_truediv_fl fl (fl (T - fl (Tc - 2))) 2)
          (\<lambda>q. Inr (py_int (fl (75 + fl (q * 25))), ''CRITICAL''))
      else if T \<ge> 25 then
        and_then (py_truediv_fl fl (fl (T - 25)) (fl (fl (Tc - 2) - 25)))
          (\<lambda>q. Inr (py_int (fl (50 + fl (q * 25))), ''HIGH RISK''))
      else
        and_then (py_truediv_fl fl T 25)
          (\<lambda>q. Inr (py_int (fl (q * 50)), ''STABLE'')))"

definition SMR :: "real \<Rightarrow> real" where
  "SMR T = 72.4 * exp (0.0567 * T)"

definition Q10 :: "real \<Rightarrow> real" where
  "Q10 T = (if T \<ge> 25 then 2.45 else 2.07)"

section \<open>Population forecast (stefpro.py, lines 522 to 539)\<close>

definition years :: "int list" where
  \<comment> \<open>\<open>np.arange(2026, 2051)\<close>\<close>
  "years = [2026..2050]"

definition decay_rate :: "int \<Rightarrow> real" where
  "decay_rate risk = 0.05 + (of_int risk / 500)"

definition population :: "int \<Rightarrow> real list" where
  "population risk = map (\<lambda>y. 100 * exp (- decay_rate risk * of_int (y - 2026))) years"

definition collapse_year :: "int \<Rightarrow> int option" where
  \<comment> \<open>\<open>years[np.where(population < 50)[0][0]] if any(population < 50) else None\<close>\<close>
  "collapse_year risk =
     (let pop = population risk in
      if list_ex (\<lambda>p. p < 50) pop
      then Some (years ! hd (filter (\<lambda>i. pop ! i < 50) [0..<length pop]))
      else None)"

section \<open>The engine as one function\<close>

record assessment =
  eff_temperature :: real
  lethal_threshold :: real
  risk_score :: int
  status :: string
  smr :: real
  q10 :: real
  decay :: real
  series :: "(int \<times> real) list"
  collapse :: "int option"

definition core :: "real \<Rightarrow> string \<Rightarrow> real \<Rightarrow> py_error + assessment" where
  \<comment> \<open>stefpro.py from \<open>temp_shift = 0.0\<close> to the forecast tab, on a resolved temperature.\<close>
  "core temp scenario ni =
     (let T = temp + temp_shift scenario in
      and_then (risk_block T ni) (\<lambda>(risk, st).
        Inr \<lparr>eff_temperature = T,
             lethal_threshold = T_critical ni,
             risk_score = risk,
             status = st,
             smr = SMR T,
             q10 = Q10 T,
             decay = decay_rate risk,
             series = zip years (population risk),
             collapse = collapse_year risk\<rparr>))"

section \<open>The second file (stefpro69.py, lines 218 to 248 and 396 to 411)\<close>

definition temp_shift_69 :: "string \<Rightarrow> real" where
  "temp_shift_69 scenario =
     (if sublist ''1.5'' scenario then 1.5
      else if sublist ''3.2'' scenario then 3.2
      else 0.0)"

definition base_limit_69 :: real where
  "base_limit_69 = 31.5"

definition starvation_penalty_69 :: "real \<Rightarrow> real" where
  "starvation_penalty_69 ni = 1.07 * (1 - ni)"

definition T_critical_69 :: "real \<Rightarrow> real" where
  "T_critical_69 ni = base_limit_69 - starvation_penalty_69 ni"

definition risk_block_69 :: "real \<Rightarrow> real \<Rightarrow> py_error + (int \<times> string)" where
  "risk_block_69 T ni =
     (let Tc = T_critical_69 ni in
      if T \<ge> Tc then Inr (100, ''LETHAL'')
      else if T \<ge> Tc - 2 then
        and_then (py_truediv (T - (Tc - 2)) 2) (\<lambda>q. Inr (py_int (75 + q * 25), ''CRITICAL''))
      else if T \<ge> 25 then
        and_then (py_truediv (T - 25) (Tc - 2 - 25)) (\<lambda>q. Inr (py_int (50 + q * 25), ''HIGH RISK''))
      else
        and_then (py_truediv T 25) (\<lambda>q. Inr (py_int (q * 50), ''STABLE'')))"

definition SMR_69 :: "real \<Rightarrow> real" where
  "SMR_69 T = 72.4 * exp (0.0567 * T)"

definition Q10_69 :: "real \<Rightarrow> real" where
  "Q10_69 T = (if T \<ge> 25 then 2.45 else 2.07)"

definition years_69 :: "int list" where
  "years_69 = [2026..2050]"

definition decay_rate_69 :: "int \<Rightarrow> real" where
  "decay_rate_69 risk = 0.05 + (of_int risk / 500)"

definition population_69 :: "int \<Rightarrow> real list" where
  "population_69 risk = map (\<lambda>y. 100 * exp (- decay_rate_69 risk * of_int (y - 2026))) years_69"

definition collapse_year_69 :: "int \<Rightarrow> int option" where
  "collapse_year_69 risk =
     (let pop = population_69 risk in
      if list_ex (\<lambda>p. p < 50) pop
      then Some (years_69 ! hd (filter (\<lambda>i. pop ! i < 50) [0..<length pop]))
      else None)"

definition core_69 :: "real \<Rightarrow> string \<Rightarrow> real \<Rightarrow> py_error + assessment" where
  "core_69 temp scenario ni =
     (let T = temp + temp_shift_69 scenario in
      and_then (risk_block_69 T ni) (\<lambda>(risk, st).
        Inr \<lparr>eff_temperature = T,
             lethal_threshold = T_critical_69 ni,
             risk_score = risk,
             status = st,
             smr = SMR_69 T,
             q10 = Q10_69 T,
             decay = decay_rate_69 risk,
             series = zip years_69 (population_69 risk),
             collapse = collapse_year_69 risk\<rparr>))"

section \<open>Lethal threshold\<close>

lemma T_critical_eq: "T_critical ni = 31.5 - 1.07 * (1 - ni)"
  by (simp add: T_critical_def base_limit_def starvation_penalty_def)

lemma T_critical_lower: "0 \<le> ni \<Longrightarrow> 30.43 \<le> T_critical ni"
  by (simp add: T_critical_eq)

lemma T_critical_upper: "ni \<le> 1 \<Longrightarrow> T_critical ni \<le> 31.5"
  by (simp add: T_critical_eq)

lemma T_critical_mono: "ni1 \<le> ni2 \<Longrightarrow> T_critical ni1 \<le> T_critical ni2"
  by (simp add: T_critical_eq)

text \<open>
  C4. The lethal threshold is \<open>31.5 - 1.07 * (1 - NI)\<close>. For \<open>NI\<close> in \<open>[0, 1]\<close> it lies
  in \<open>[30.43, 31.5]\<close>; it never rises when \<open>NI\<close> falls; and it is a function of
  \<open>NI\<close> alone (\<open>T_critical\<close> has no temperature argument, and \<open>risk_block\<close> reads the
  threshold only through it).
\<close>

theorem lethal_threshold_range_mono:
  "T_critical ni = 31.5 - 1.07 * (1 - ni)
   \<and> (0 \<le> ni \<and> ni \<le> 1 \<longrightarrow> 30.43 \<le> T_critical ni \<and> T_critical ni \<le> 31.5)
   \<and> (\<forall>ni'. ni' \<le> ni \<longrightarrow> T_critical ni' \<le> T_critical ni)"
  using T_critical_eq T_critical_lower T_critical_upper T_critical_mono by blast

theorem lethal_threshold_range_mono_witness:
  "T_critical 0 = 30.43 \<and> T_critical 1 = 31.5 \<and> T_critical 0 \<le> T_critical 1
   \<and> (0 \<le> (1/2::real) \<and> (1/2::real) \<le> 1 \<and> 30.43 \<le> T_critical (1/2) \<and> T_critical (1/2) \<le> 31.5)"
  using lethal_threshold_range_mono [of "1/2"] lethal_threshold_range_mono [of 1]
    lethal_threshold_range_mono [of 0]
  by simp

section \<open>Risk classification\<close>

lemma py_int_nonneg: "0 \<le> x \<Longrightarrow> py_int x = \<lfloor>x\<rfloor>"
  by (simp add: py_int_def)

lemma py_int_mono: "x \<le> y \<Longrightarrow> py_int x \<le> py_int y"
  unfolding py_int_def
  by (smt (verit) ceiling_mono floor_mono ceiling_le_zero zero_le_floor floor_le_ceiling)

lemma py_int_less: "x < of_int n \<Longrightarrow> 0 < n \<Longrightarrow> py_int x < n"
  unfolding py_int_def by (auto simp: floor_less_iff ceiling_less_iff)

lemma py_int_ge: "of_int n \<le> x \<Longrightarrow> n \<le> py_int x"
  unfolding py_int_def by (auto simp: le_floor_iff le_ceiling_iff)

lemma high_risk_divisor: "0 \<le> ni \<Longrightarrow> 3.43 \<le> T_critical ni - 2 - 25"
  by (simp add: T_critical_eq)

lemma risk_block_unfold:
  "risk_block T ni =
     (if T \<ge> T_critical ni then Inr (100, ''LETHAL'')
      else if T \<ge> T_critical ni - 2 then
        Inr (py_int (75 + (T - (T_critical ni - 2)) / 2 * 25), ''CRITICAL'')
      else if T \<ge> 25 then
        Inr (py_int (50 + (T - 25) / (T_critical ni - 2 - 25) * 25), ''HIGH RISK'')
      else Inr (py_int (T / 25 * 50), ''STABLE''))"
  by (simp add: risk_block_def Let_def and_then_def py_truediv_def)

lemma critical_bounds:
  assumes "Tc - 2 \<le> T" "T < Tc"
  shows "75 \<le> py_int (75 + (T - (Tc - 2)) / 2 * 25)" "py_int (75 + (T - (Tc - 2)) / 2 * 25) < 100"
proof -
  have "of_int 75 \<le> 75 + (T - (Tc - 2)) / 2 * 25" using assms by simp
  then show "75 \<le> py_int (75 + (T - (Tc - 2)) / 2 * 25)" by (rule py_int_ge)
  have "75 + (T - (Tc - 2)) / 2 * 25 < of_int 100" using assms by simp
  then show "py_int (75 + (T - (Tc - 2)) / 2 * 25) < 100" by (rule py_int_less) simp
qed

lemma high_bounds:
  assumes "25 \<le> T" "T < Tc - 2"
  shows "50 \<le> py_int (50 + (T - 25) / (Tc - 2 - 25) * 25)" "py_int (50 + (T - 25) / (Tc - 2 - 25) * 25) < 75"
proof -
  define q where "q = (T - 25) / (Tc - 2 - 25)"
  have d: "0 < Tc - 2 - 25" using assms by simp
  have "0 \<le> q" using assms d by (simp add: q_def)
  then have "of_int 50 \<le> 50 + q * 25" by simp
  then have "50 \<le> py_int (50 + q * 25)" by (rule py_int_ge)
  then show "50 \<le> py_int (50 + (T - 25) / (Tc - 2 - 25) * 25)" by (simp only: q_def)
  have "q < 1" using assms d by (simp add: q_def)
  then have "50 + q * 25 < of_int 75" by simp
  then have "py_int (50 + q * 25) < 75" by (rule py_int_less) simp
  then show "py_int (50 + (T - 25) / (Tc - 2 - 25) * 25) < 75" by (simp only: q_def)
qed

lemma high_mono:
  assumes "T1 \<le> T2" "0 < d"
  shows "py_int (50 + (T1 - 25) / d * 25) \<le> py_int (50 + (T2 - 25) / d * 25)"
proof -
  define q1 where "q1 = (T1 - 25) / d"
  define q2 where "q2 = (T2 - 25) / d"
  have "q1 \<le> q2" using assms by (simp add: q1_def q2_def divide_right_mono)
  then have "50 + q1 * 25 \<le> 50 + q2 * 25" by simp
  then have "py_int (50 + q1 * 25) \<le> py_int (50 + q2 * 25)" by (rule py_int_mono)
  then show ?thesis by (simp only: q1_def q2_def)
qed

lemma stable_upper:
  assumes "T < 25"
  shows "py_int (T / 25 * 50) < 50"
proof -
  have "T / 25 * 50 < of_int 50" using assms by simp
  then show ?thesis by (rule py_int_less) simp
qed

lemma stable_lower:
  assumes "- 1 / 2 < T"
  shows "0 \<le> py_int (T / 25 * 50)"
proof (cases "0 \<le> T")
  case True
  then have "of_int 0 \<le> T / 25 * 50" by simp
  then show ?thesis by (rule py_int_ge)
next
  case False
  then have "T / 25 * 50 < 0" by simp
  moreover have "- 1 < T / 25 * 50" using assms by simp
  ultimately show ?thesis by (simp add: py_int_def le_ceiling_iff)
qed

lemma risk_block_total: "\<exists>r s. risk_block T ni = Inr (r, s)"
  by (simp add: risk_block_unfold)

lemma risk_block_range:
  assumes "- 1 / 2 < T" "risk_block T ni = Inr (r, s)"
  shows "0 \<le> r \<and> r \<le> 100"
proof -
  let ?Tc = "T_critical ni"
  consider "?Tc \<le> T" | "?Tc - 2 \<le> T" "T < ?Tc" | "25 \<le> T" "T < ?Tc - 2" | "T < 25" "T < ?Tc - 2" "T < ?Tc"
    by linarith
  then show ?thesis
  proof cases
    case 1
    then show ?thesis using assms(2) by (simp add: risk_block_unfold)
  next
    case 2
    then show ?thesis using assms(2) critical_bounds [OF 2] by (simp add: risk_block_unfold)
  next
    case 3
    then show ?thesis using assms(2) high_bounds [OF 3] by (simp add: risk_block_unfold)
  next
    case 4
    then show ?thesis using assms(2) stable_upper [OF 4(1)] stable_lower [OF assms(1)]
      by (simp add: risk_block_unfold)
  qed
qed

lemma risk_block_mono:
  assumes "T1 \<le> T2" "risk_block T1 ni = Inr (r1, s1)" "risk_block T2 ni = Inr (r2, s2)"
  shows "r1 \<le> r2"
proof -
  let ?Tc = "T_critical ni"
  consider "?Tc \<le> T1" | "?Tc - 2 \<le> T1" "T1 < ?Tc" | "25 \<le> T1" "T1 < ?Tc - 2" | "T1 < 25" "T1 < ?Tc - 2" "T1 < ?Tc"
    by linarith
  then show ?thesis
  proof cases
    case 1
    then have "?Tc \<le> T2" using assms(1) by simp
    with 1 show ?thesis using assms(2,3) by (simp add: risk_block_unfold)
  next
    case 2
    have r1: "r1 = py_int (75 + (T1 - (?Tc - 2)) / 2 * 25)"
      using 2 assms(2) by (simp add: risk_block_unfold)
    show ?thesis
    proof (cases "?Tc \<le> T2")
      case True
      then have "r2 = 100" using assms(3) by (simp add: risk_block_unfold)
      then show ?thesis using r1 critical_bounds(2) [OF 2] by simp
    next
      case False
      then have "r2 = py_int (75 + (T2 - (?Tc - 2)) / 2 * 25)"
        using 2 assms(1,3) by (simp add: risk_block_unfold)
      moreover have "75 + (T1 - (?Tc - 2)) / 2 * 25 \<le> 75 + (T2 - (?Tc - 2)) / 2 * 25"
        using assms(1) by simp
      ultimately show ?thesis using r1 py_int_mono by simp
    qed
  next
    case 3
    have r1: "r1 = py_int (50 + (T1 - 25) / (?Tc - 2 - 25) * 25)"
      using 3 assms(2) by (simp add: risk_block_unfold)
    have b1: "r1 < 75" using r1 high_bounds(2) [OF 3] by simp
    consider "?Tc \<le> T2" | "?Tc - 2 \<le> T2" "T2 < ?Tc" | "T2 < ?Tc - 2" "T2 < ?Tc" by linarith
    then show ?thesis
    proof cases
      case 1
      then have "r2 = 100" using assms(3) by (simp add: risk_block_unfold)
      then show ?thesis using b1 by simp
    next
      case 2
      then have "r2 = py_int (75 + (T2 - (?Tc - 2)) / 2 * 25)"
        using assms(3) by (simp add: risk_block_unfold)
      then show ?thesis using b1 critical_bounds(1) [OF 2] by simp
    next
      case c: 3
      have "25 \<le> T2" using 3(1) assms(1) by simp
      then have "r2 = py_int (50 + (T2 - 25) / (?Tc - 2 - 25) * 25)"
        using c assms(3) by (simp add: risk_block_unfold)
      moreover have "0 < ?Tc - 2 - 25" using 3 by simp
      then have "py_int (50 + (T1 - 25) / (?Tc - 2 - 25) * 25)
          \<le> py_int (50 + (T2 - 25) / (?Tc - 2 - 25) * 25)"
        using assms(1) by (rule high_mono [rotated])
      ultimately show ?thesis using r1 by simp
    qed
  next
    case 4
    have r1: "r1 = py_int (T1 / 25 * 50)"
      using 4 assms(2) by (simp add: risk_block_unfold)
    have b1: "r1 < 50" using r1 stable_upper [OF 4(1)] by simp
    consider "?Tc \<le> T2" | "?Tc - 2 \<le> T2" "T2 < ?Tc" | "25 \<le> T2" "T2 < ?Tc - 2" | "T2 < 25" "T2 < ?Tc - 2" "T2 < ?Tc"
      by linarith
    then show ?thesis
    proof cases
      case 1
      then have "r2 = 100" using assms(3) by (simp add: risk_block_unfold)
      then show ?thesis using b1 by simp
    next
      case 2
      then have "r2 = py_int (75 + (T2 - (?Tc - 2)) / 2 * 25)"
        using assms(3) by (simp add: risk_block_unfold)
      then show ?thesis using b1 critical_bounds(1) [OF 2] by simp
    next
      case c: 3
      then have "r2 = py_int (50 + (T2 - 25) / (?Tc - 2 - 25) * 25)"
        using assms(3) by (simp add: risk_block_unfold)
      then show ?thesis using b1 high_bounds(1) [OF c] by simp
    next
      case c: 4
      then have "r2 = py_int (T2 / 25 * 50)"
        using assms(3) by (simp add: risk_block_unfold)
      moreover have "T1 / 25 * 50 \<le> T2 / 25 * 50" using assms(1) by simp
      ultimately show ?thesis using r1 py_int_mono by simp
    qed
  qed
qed

lemma stable_negative:
  assumes "T \<le> - 1 / 2"
  shows "py_int (T / 25 * 50) < 0"
proof -
  have "T / 25 * 50 \<le> - 1" using assms by simp
  then show ?thesis by (simp add: py_int_def ceiling_less_iff)
qed

text \<open>
  C2, amended. The code has no clamp. For \<open>NI\<close> in \<open>[0, 1]\<close> the score never exceeds
  100, and it is at least 0 exactly when the temperature is above \<open>-0.5\<close>.
\<close>

theorem risk_score_range:
  assumes "0 \<le> ni" "ni \<le> 1"
  shows "\<exists>r s. risk_block T ni = Inr (r, s) \<and> r \<le> 100 \<and> (0 \<le> r \<longleftrightarrow> - 1 / 2 < T)"
proof -
  obtain r s where rs: "risk_block T ni = Inr (r, s)"
    using risk_block_total by blast
  show ?thesis
  proof (cases "- 1 / 2 < T")
    case True
    then show ?thesis using rs risk_block_range [OF True rs] by simp
  next
    case False
    then have T: "T \<le> - 1 / 2" by simp
    have "30.43 \<le> T_critical ni" using assms(1) by (rule T_critical_lower)
    then have "r = py_int (T / 25 * 50)"
      using T rs by (simp add: risk_block_unfold)
    then have "r < 0" using stable_negative [OF T] by simp
    then show ?thesis using rs False by simp
  qed
qed

theorem risk_score_range_witness:
  "0 \<le> (0::real) \<and> (0::real) \<le> 1
   \<and> (\<exists>r s. risk_block 28 0 = Inr (r, s) \<and> r \<le> 100 \<and> (0 \<le> r \<longleftrightarrow> - 1 / 2 < (28::real)))"
  using risk_score_range [of 0 28] by simp

text \<open>
  A sea-surface reading of \<open>-1.8\<close> degrees (271.35 K) with the baseline scenario gives
  the score \<open>-3\<close>.
\<close>

theorem risk_negative_counterexample:
  "risk_block (- 18 / 10) 1 = Inr (- 3, ''STABLE'') \<and> (- 3 :: int) < 0"
  by (simp add: risk_block_unfold T_critical_eq py_int_def)

text \<open>
  C3. For \<open>NI\<close> in \<open>[0, 1]\<close> the divisor of the HIGH RISK branch,
  \<open>T_critical - 2 - 25 = 31.5 - 1.07 * (1 - NI) - 27\<close>, is at least 3.43, hence positive;
  the case \<open>T_critical - 2 \<le> 25\<close> does not arise; the division of that branch never
  raises, and the whole classification returns a score and a status for every
  temperature.
\<close>

theorem high_risk_divisor_positive:
  assumes "0 \<le> ni" "ni \<le> 1"
  shows "T_critical ni - 2 - 25 = 31.5 - 1.07 * (1 - ni) - 27
         \<and> 3.43 \<le> T_critical ni - 2 - 25
         \<and> \<not> (T_critical ni - 2 \<le> 25)
         \<and> (\<forall>T. \<exists>q. py_truediv (T - 25) (T_critical ni - 2 - 25) = Inr q)
         \<and> (\<forall>T. \<exists>r s. risk_block T ni = Inr (r, s))"
proof -
  have d: "3.43 \<le> T_critical ni - 2 - 25" using assms(1) by (rule high_risk_divisor)
  then have "T_critical ni - 2 - 25 \<noteq> 0" by simp
  then have "\<forall>T. \<exists>q. py_truediv (T - 25) (T_critical ni - 2 - 25) = Inr q"
    by (simp add: py_truediv_def)
  moreover have "T_critical ni - 2 - 25 = 31.5 - 1.07 * (1 - ni) - 27"
    by (simp add: T_critical_eq)
  moreover have "\<not> (T_critical ni - 2 \<le> 25)" using d by simp
  ultimately show ?thesis using d risk_block_total by blast
qed

theorem high_risk_divisor_positive_witness:
  "0 \<le> (0::real) \<and> (0::real) \<le> 1 \<and> T_critical 0 - 2 - 25 = 3.43
   \<and> (\<forall>T. \<exists>r s. risk_block T 0 = Inr (r, s))"
  using high_risk_divisor_positive [of 0] by (simp add: T_critical_eq)

text \<open>
  C10. For a fixed \<open>NI\<close> in \<open>[0, 1]\<close> and temperatures \<open>0 \<le> T1 \<le> T2\<close>, both
  classifications return and the score at \<open>T1\<close> is at most the score at \<open>T2\<close>, across
  the branch boundaries and under the truncation of each branch.
\<close>

theorem risk_score_monotone:
  assumes "0 \<le> ni" "ni \<le> 1" "0 \<le> T1" "T1 \<le> T2"
  shows "\<exists>r1 s1 r2 s2. risk_block T1 ni = Inr (r1, s1) \<and> risk_block T2 ni = Inr (r2, s2) \<and> r1 \<le> r2"
proof -
  obtain r1 s1 where 1: "risk_block T1 ni = Inr (r1, s1)" using risk_block_total by blast
  obtain r2 s2 where 2: "risk_block T2 ni = Inr (r2, s2)" using risk_block_total by blast
  have "r1 \<le> r2" using assms(4) 1 2 by (rule risk_block_mono)
  then show ?thesis using 1 2 by blast
qed

theorem risk_score_monotone_witness:
  "0 \<le> (1/2::real) \<and> (1/2::real) \<le> 1 \<and> 0 \<le> (249/10::real) \<and> (249/10::real) \<le> 25
   \<and> (\<exists>r1 s1 r2 s2. risk_block (249/10) (1/2) = Inr (r1, s1) \<and> risk_block 25 (1/2) = Inr (r2, s2) \<and> r1 \<le> r2)"
  using risk_score_monotone [of "1/2" "249/10" 25] by simp

section \<open>Geographic fallback model\<close>


lemma round_half_even_between:
  assumes "of_int a \<le> y" "y \<le> of_int b"
  shows "a \<le> round_half_even y \<and> round_half_even y \<le> b"
proof -
  have f: "a \<le> \<lfloor>y\<rfloor>" using assms(1) by (simp add: le_floor_iff)
  have "\<lfloor>y\<rfloor> \<le> b" using assms(2) by (simp add: floor_le_iff)
  moreover have "\<lfloor>y\<rfloor> + 1 \<le> b" if "y - of_int \<lfloor>y\<rfloor> \<ge> 1 / 2"
  proof -
    have "of_int \<lfloor>y\<rfloor> < y" using that by linarith
    then have "of_int \<lfloor>y\<rfloor> < (of_int b :: real)" using assms(2) by linarith
    then show ?thesis by simp
  qed
  ultimately show ?thesis using f unfolding round_half_even_def Let_def by auto
qed









section \<open>Rounding to binary64\<close>

lemma round_half_even_of_int: "round_half_even (of_int n) = n"
  by (simp add: round_half_even_def)

lemma round_half_even_mono:
  assumes "x \<le> y"
  shows "round_half_even x \<le> round_half_even y"
proof (cases "\<lfloor>x\<rfloor> = \<lfloor>y\<rfloor>")
  case True
  have "x - of_int \<lfloor>x\<rfloor> \<le> y - of_int \<lfloor>y\<rfloor>" using assms True by simp
  then show ?thesis unfolding round_half_even_def Let_def using True by auto
next
  case False
  have "\<lfloor>x\<rfloor> \<le> \<lfloor>y\<rfloor>" using assms by (rule floor_mono)
  then have "\<lfloor>x\<rfloor> + 1 \<le> \<lfloor>y\<rfloor>" using False by simp
  moreover have "round_half_even x \<le> \<lfloor>x\<rfloor> + 1" unfolding round_half_even_def Let_def by auto
  moreover have "\<lfloor>y\<rfloor> \<le> round_half_even y" unfolding round_half_even_def Let_def by auto
  ultimately show ?thesis by linarith
qed

lemma round_half_even_minus: "round_half_even (- x) = - round_half_even x"
proof (cases "x = of_int \<lfloor>x\<rfloor>")
  case True
  then obtain n where "x = of_int n" by blast
  then have "round_half_even x = n" "round_half_even (- x) = - n"
    using round_half_even_of_int [of n] round_half_even_of_int [of "- n"] by simp_all
  then show ?thesis by simp
next
  case False
  then have c: "\<lceil>x\<rceil> = \<lfloor>x\<rfloor> + 1" by (simp add: ceiling_altdef)
  have f: "\<lfloor>- x\<rfloor> = - \<lfloor>x\<rfloor> - 1" using c by (simp add: ceiling_def)
  have d: "- x - of_int \<lfloor>- x\<rfloor> = 1 - (x - of_int \<lfloor>x\<rfloor>)" using f by simp
  show ?thesis
    unfolding round_half_even_def Let_def d unfolding f by auto
qed

lemma binade_bounds:
  assumes "x \<noteq> 0"
  shows "2 powr of_int (binade x) \<le> \<bar>x\<bar>" "\<bar>x\<bar> < 2 powr (of_int (binade x) + 1)"
proof -
  have p: "0 < \<bar>x\<bar>" using assms by simp
  have "of_int (binade x) \<le> log 2 \<bar>x\<bar>" unfolding binade_def by simp
  then show "2 powr of_int (binade x) \<le> \<bar>x\<bar>" using p by (simp add: le_log_iff)
  have "log 2 \<bar>x\<bar> < of_int (binade x) + 1" unfolding binade_def by linarith
  then show "\<bar>x\<bar> < 2 powr (of_int (binade x) + 1)" using p by (simp add: log_less_iff)
qed

lemma binade_unique:
  assumes "2 powr of_int e \<le> \<bar>x\<bar>" "\<bar>x\<bar> < 2 powr (of_int e + 1)"
  shows "binade x = e"
proof -
  have p: "0 < \<bar>x\<bar>" using assms(1) by (smt (verit) powr_gt_zero)
  have "of_int e \<le> log 2 \<bar>x\<bar>" using assms(1) p by (simp add: le_log_iff)
  moreover have "log 2 \<bar>x\<bar> < of_int e + 1" using assms(2) p by (simp add: log_less_iff)
  ultimately show ?thesis unfolding binade_def by (simp add: floor_eq_iff)
qed

lemma binade_minus: "binade (- x) = binade x"
  by (simp add: binade_def)

lemma fl64_zero: "fl64 0 = 0"
  by (simp add: fl64_def)

lemma fl64_minus: "fl64 (- x) = - fl64 x"
  by (simp add: fl64_def binade_minus round_half_even_minus Let_def)

text \<open>The scaled significand lies in [2^52, 2^53).\<close>

lemma scaled_bounds:
  assumes "0 < x"
  shows "2 ^ 52 \<le> x / 2 powr (of_int (binade x) - 52)"
    "x / 2 powr (of_int (binade x) - 52) < 2 ^ 53"
proof -
  define P :: real where "P = 2 ^ 52"
  define r where "r = x / 2 powr of_int (binade x)"
  have P: "0 < P" "2 ^ 53 = 2 * P" by (simp_all add: P_def)
  have x: "x \<noteq> 0" "\<bar>x\<bar> = x" using assms by simp_all
  have lo: "2 powr of_int (binade x) \<le> x" using binade_bounds(1) [OF x(1)] x(2) by simp
  have hi: "x < 2 * 2 powr of_int (binade x)"
    using binade_bounds(2) [OF x(1)] x(2) by (simp add: powr_add)
  have r: "1 \<le> r" "r < 2" using lo hi by (simp_all add: r_def le_divide_eq divide_less_eq)
  have "2 powr (of_int (binade x) - 52) = 2 powr of_int (binade x) / P"
    by (simp add: powr_diff P_def)
  then have e: "x / 2 powr (of_int (binade x) - 52) = r * P" by (simp add: r_def)
  have "1 * P \<le> r * P" using r(1) P(1) by (intro mult_right_mono) simp_all
  then show "2 ^ 52 \<le> x / 2 powr (of_int (binade x) - 52)" unfolding e by (simp add: P_def)
  have "r * P < 2 * P" using r(2) P(1) by (intro mult_strict_right_mono) simp_all
  then show "x / 2 powr (of_int (binade x) - 52) < 2 ^ 53" unfolding e P(2) .
qed

lemma fl64_pos_bounds:
  assumes "0 < x"
  shows "2 powr of_int (binade x) \<le> fl64 x" "fl64 x \<le> 2 powr (of_int (binade x) + 1)"
proof -
  define P :: real where "P = 2 ^ 52"
  define s :: real where "s = 2 powr (of_int (binade x) - 52)"
  define m :: real where "m = of_int (round_half_even (x / s))"
  have "of_int (2 ^ 52) \<le> x / s" "x / s \<le> of_int (2 ^ 53)"
    using scaled_bounds [OF assms] unfolding s_def by simp_all
  then have "2 ^ 52 \<le> round_half_even (x / s) \<and> round_half_even (x / s) \<le> 2 ^ 53"
    by (rule round_half_even_between)
  then have "(of_int (2 ^ 52) :: real) \<le> m \<and> m \<le> of_int (2 ^ 53)"
    unfolding m_def by (simp only: of_int_le_iff)
  then have m: "P \<le> m" "m \<le> 2 * P" by (simp_all add: P_def)
  have f: "fl64 x = m * s" using assms by (simp add: fl64_def Let_def m_def s_def)
  have spos: "0 < s" by (simp add: s_def)
  have s1: "P * s = 2 powr of_int (binade x)" by (simp add: powr_diff P_def s_def)
  have s2: "2 * P * s = 2 powr (of_int (binade x) + 1)"
    by (simp add: powr_diff powr_add P_def s_def)
  have "P * s \<le> m * s" using m(1) spos by (intro mult_right_mono) simp_all
  then show "2 powr of_int (binade x) \<le> fl64 x" unfolding f s1 .
  have "m * s \<le> 2 * P * s" using m(2) spos by (intro mult_right_mono) simp_all
  then show "fl64 x \<le> 2 powr (of_int (binade x) + 1)" unfolding f s2 .
qed

lemma fl64_pos: "0 < x \<Longrightarrow> 0 < fl64 x"
  using fl64_pos_bounds(1) [of x] by (smt (verit) powr_gt_zero)

lemma fl64_neg: "x < 0 \<Longrightarrow> fl64 x < 0"
  using fl64_pos [of "- x"] by (simp add: fl64_minus)

lemma fl64_eq_0_iff: "fl64 x = 0 \<longleftrightarrow> x = 0"
proof
  assume z: "fl64 x = 0"
  show "x = 0"
  proof (rule ccontr)
    assume "x \<noteq> 0"
    then consider "0 < x" | "x < 0" by linarith
    then show False
    proof cases
      case 1
      then show False using fl64_pos [of x] z by simp
    next
      case 2
      then show False using fl64_neg [of x] z by simp
    qed
  qed
next
  assume "x = 0"
  then show "fl64 x = 0" by (simp add: fl64_zero)
qed

lemma binade_mono:
  assumes "0 < x" "x \<le> y"
  shows "binade x \<le> binade y"
proof -
  have "log 2 \<bar>x\<bar> \<le> log 2 \<bar>y\<bar>" using assms by simp
  then show ?thesis unfolding binade_def by (rule floor_mono)
qed

lemma fl64_mono_pos:
  assumes "0 < x" "x \<le> y"
  shows "fl64 x \<le> fl64 y"
proof (cases "binade x = binade y")
  case True
  let ?s = "2 powr (of_int (binade y) - 52) :: real"
  have y: "0 < y" using assms by simp
  have "x / ?s \<le> y / ?s" using assms(2) by (simp add: divide_right_mono)
  then have "round_half_even (x / ?s) \<le> round_half_even (y / ?s)" by (rule round_half_even_mono)
  then have "(of_int (round_half_even (x / ?s)) :: real) \<le> of_int (round_half_even (y / ?s))"
    by simp
  then have "of_int (round_half_even (x / ?s)) * ?s \<le> of_int (round_half_even (y / ?s)) * ?s"
    by (simp only: mult_le_cancel_right_pos powr_gt_zero)
  then show ?thesis using assms(1) y True by (simp add: fl64_def Let_def)
next
  case False
  have y: "0 < y" using assms by simp
  have "binade x \<le> binade y" using assms by (rule binade_mono)
  then have "binade x + 1 \<le> binade y" using False by simp
  then have "(of_int (binade x) :: real) + 1 \<le> of_int (binade y)" by linarith
  then have "(2::real) powr (of_int (binade x) + 1) \<le> 2 powr of_int (binade y)" by simp
  then show ?thesis
    using fl64_pos_bounds(2) [OF assms(1)] fl64_pos_bounds(1) [OF y] by linarith
qed

lemma fl64_mono:
  assumes "x \<le> y"
  shows "fl64 x \<le> fl64 y"
proof -
  consider "0 < x" | "x \<le> 0" "0 \<le> y" | "y < 0" using assms by linarith
  then show ?thesis
  proof cases
    case 1
    then show ?thesis using assms by (rule fl64_mono_pos)
  next
    case 2
    have "fl64 x \<le> 0" using 2(1) fl64_neg [of x] fl64_zero by (cases "x = 0") auto
    moreover have "0 \<le> fl64 y" using 2(2) fl64_pos [of y] fl64_zero by (cases "y = 0") auto
    ultimately show ?thesis by simp
  next
    case 3
    have "fl64 (- y) \<le> fl64 (- x)" using 3 assms by (intro fl64_mono_pos) simp_all
    then show ?thesis by (simp add: fl64_minus)
  qed
qed

lemma fl64_repr_pos:
  assumes "2 ^ 52 \<le> m" "m \<le> 2 ^ 53"
  shows "fl64 (of_int m * 2 powr (of_int e - 52)) = of_int m * 2 powr (of_int e - 52)"
proof -
  define P :: real where "P = 2 ^ 52"
  define s :: real where "s = 2 powr (of_int e - 52)"
  define x where "x = of_int m * s"
  have P: "0 < P" by (simp add: P_def)
  have spos: "0 < s" by (simp add: s_def)
  have "(of_int (2 ^ 52) :: real) \<le> of_int m" "(of_int m :: real) \<le> of_int (2 ^ 53)"
    using assms by (simp_all only: of_int_le_iff)
  then have m: "P \<le> of_int m" "of_int m \<le> 2 * P" by (simp_all add: P_def)
  have s1: "P * s = 2 powr of_int e" by (simp add: powr_diff P_def s_def)
  have s2: "2 * P * s = 2 powr (of_int e + 1)" by (simp add: powr_diff powr_add P_def s_def)
  have xpos: "0 < x" using m(1) P spos by (simp add: x_def)
  have lo: "2 powr of_int e \<le> x"
    unfolding s1 [symmetric] x_def using m(1) spos by (intro mult_right_mono) simp_all
  show ?thesis
  proof (cases "m = 2 ^ 53")
    case False
    then have "m < 2 ^ 53" using assms(2) by simp
    then have "(of_int m :: real) < of_int (2 ^ 53)" by (simp only: of_int_less_iff)
    then have "of_int m < 2 * P" by (simp add: P_def)
    then have "x < 2 powr (of_int e + 1)"
      unfolding s2 [symmetric] x_def using spos by (intro mult_strict_right_mono) simp_all
    then have "binade x = e" using lo xpos by (intro binade_unique) simp_all
    moreover have "x / s = of_int m" using spos by (simp add: x_def)
    ultimately have "fl64 x = x"
      using xpos by (simp add: fl64_def Let_def s_def [symmetric] round_half_even_of_int x_def)
    then show ?thesis by (simp only: x_def s_def)
  next
    case True
    then have "(of_int m :: real) = of_int (2 ^ 53)" by simp
    then have mm: "of_int m = 2 * P" by (simp add: P_def)
    have xe: "x = 2 powr (of_int e + 1)" unfolding x_def mm s2 ..
    have "2 powr of_int (e + 1) \<le> \<bar>x\<bar>" "\<bar>x\<bar> < 2 powr (of_int (e + 1) + 1)"
      unfolding xe by simp_all
    then have b: "binade x = e + 1" by (rule binade_unique)
    have s': "2 powr (of_int (e + 1) - 52) = 2 * s" by (simp add: s_def powr_diff powr_add)
    have "x / (2 * s) = of_int (2 ^ 52)" using spos by (simp add: x_def mm P_def)
    then have r: "round_half_even (x / (2 * s)) = 2 ^ 52" by (simp only: round_half_even_of_int)
    have "fl64 x = of_int (round_half_even (x / 2 powr (of_int (binade x) - 52)))
        * 2 powr (of_int (binade x) - 52)"
      using xpos by (simp add: fl64_def Let_def)
    then have "fl64 x = of_int (round_half_even (x / (2 * s))) * (2 * s)" unfolding b s' .
    then have "fl64 x = of_int (2 ^ 52) * (2 * s)" unfolding r .
    also have "\<dots> = x" by (simp add: x_def mm P_def)
    finally show ?thesis by (simp only: x_def s_def)
  qed
qed

lemma fl64_idem_pos:
  assumes "0 < x"
  shows "fl64 (fl64 x) = fl64 x"
proof -
  let ?s = "2 powr (of_int (binade x) - 52) :: real"
  let ?m = "round_half_even (x / ?s)"
  have "of_int (2 ^ 52) \<le> x / ?s" "x / ?s \<le> of_int (2 ^ 53)"
    using scaled_bounds [OF assms] by simp_all
  then have "2 ^ 52 \<le> ?m \<and> ?m \<le> 2 ^ 53" by (rule round_half_even_between)
  then have "fl64 (of_int ?m * ?s) = of_int ?m * ?s" using fl64_repr_pos by blast
  moreover have "fl64 x = of_int ?m * ?s" using assms by (simp add: fl64_def Let_def)
  ultimately show ?thesis by simp
qed

lemma fl64_idem: "fl64 (fl64 x) = fl64 x"
proof -
  consider "0 < x" | "x = 0" | "x < 0" by linarith
  then show ?thesis
  proof cases
    case 1
    then show ?thesis by (rule fl64_idem_pos)
  next
    case 2
    then show ?thesis by (simp add: fl64_zero)
  next
    case 3
    then have "fl64 (fl64 (- x)) = fl64 (- x)" by (intro fl64_idem_pos) simp
    then show ?thesis by (simp add: fl64_minus)
  qed
qed

lemma fl64_eval:
  fixes k :: nat
  assumes "2 ^ 52 \<le> \<bar>x\<bar> * 2 ^ k" "\<bar>x\<bar> * 2 ^ k < 2 ^ 53"
  shows "fl64 x = of_int (round_half_even (x * 2 ^ k)) / 2 ^ k"
proof -
  define Q :: real where "Q = 2 ^ k"
  have Q: "0 < Q" by (simp add: Q_def)
  have pk: "2 powr (- real k) = 1 / Q"
    by (simp add: powr_minus powr_realpow Q_def inverse_eq_divide)
  have pk2: "2 powr real k = Q" by (simp add: powr_realpow Q_def)
  have e1: "2 powr of_int (52 - int k) = 2 ^ 52 / Q"
    using pk2 by (simp add: powr_diff)
  have e2: "2 powr (of_int (52 - int k) + 1) = 2 ^ 53 / Q"
    using pk2 by (simp add: powr_diff powr_add)
  have "2 ^ 52 / Q \<le> \<bar>x\<bar>" using assms(1) Q by (simp add: Q_def divide_le_eq)
  moreover have "\<bar>x\<bar> < 2 ^ 53 / Q" using assms(2) Q by (simp add: Q_def less_divide_eq)
  ultimately have b: "binade x = 52 - int k" unfolding e1 [symmetric] e2 [symmetric]
    by (rule binade_unique)
  have nz: "x \<noteq> 0" using assms(1) by auto
  have "(of_int (52 - int k) :: real) - 52 = - real k" by simp
  then have sc: "2 powr (of_int (52 - int k) - 52) = 1 / Q" by (simp only: pk)
  have "fl64 x = of_int (round_half_even (x / 2 powr (of_int (binade x) - 52)))
        * 2 powr (of_int (binade x) - 52)"
    using nz by (simp add: fl64_def Let_def)
  then have "fl64 x = of_int (round_half_even (x / (1 / Q))) * (1 / Q)" unfolding b sc .
  then show ?thesis by (simp add: Q_def)
qed

lemma fl64_of_int_pos:
  assumes "0 < n" "n \<le> 2 ^ 53"
  shows "fl64 (of_int n) = of_int n"
proof (cases "n = 2 ^ 53")
  case True
  have "fl64 (of_int (2 ^ 53) * 2 powr (of_int 52 - 52)) = of_int (2 ^ 53) * 2 powr (of_int 52 - 52)"
    by (rule fl64_repr_pos) simp_all
  then show ?thesis using True by simp
next
  case False
  then have lt: "n < 2 ^ 53" using assms(2) by simp
  define x :: real where "x = of_int n"
  have xpos: "0 < x" using assms(1) by (simp add: x_def)
  have x1: "1 \<le> x" using assms(1) by (simp add: x_def)
  have "x < of_int (2 ^ 53)" unfolding x_def using lt by (simp only: of_int_less_iff)
  then have x2: "x < 2 powr 53" by simp
  have "0 \<le> log 2 x" using x1 by simp
  then have b0: "0 \<le> binade x" using xpos by (simp add: binade_def)
  have "log 2 x < 53" using x2 xpos by (simp add: log_less_iff)
  then have b1: "binade x \<le> 52" using xpos by (simp add: binade_def floor_le_iff)
  define k where "k = nat (52 - binade x)"
  have kk: "int k = 52 - binade x" using b1 by (simp add: k_def)
  have sc: "2 powr (of_int (binade x) - 52) = 1 / (2 :: real) ^ k"
  proof -
    have "(of_int (binade x) :: real) - 52 = - real k" using kk by linarith
    then show ?thesis by (simp add: powr_minus powr_realpow inverse_eq_divide)
  qed
  have "x / (1 / 2 ^ k) = of_int (n * 2 ^ k)" by (simp add: x_def)
  then have r: "round_half_even (x / (1 / 2 ^ k)) = n * 2 ^ k"
    by (simp only: round_half_even_of_int)
  have "fl64 x = of_int (round_half_even (x / 2 powr (of_int (binade x) - 52)))
        * 2 powr (of_int (binade x) - 52)"
    using xpos by (simp add: fl64_def Let_def)
  then have "fl64 x = of_int (round_half_even (x / (1 / 2 ^ k))) * (1 / 2 ^ k)" unfolding sc .
  then have "fl64 x = of_int (n * 2 ^ k) * (1 / 2 ^ k)" unfolding r .
  then show ?thesis by (simp add: x_def)
qed

lemma fl64_of_int:
  assumes "\<bar>n\<bar> \<le> 2 ^ 53"
  shows "fl64 (of_int n) = of_int n"
proof -
  consider "0 < n" | "n = 0" | "n < 0" by linarith
  then show ?thesis
  proof cases
    case 1
    then show ?thesis using assms by (intro fl64_of_int_pos) simp_all
  next
    case 2
    then show ?thesis by (simp add: fl64_zero)
  next
    case 3
    then have "fl64 (of_int (- n)) = of_int (- n)" using assms by (intro fl64_of_int_pos) simp_all
    then show ?thesis by (simp add: fl64_minus)
  qed
qed

lemma ieee_like_fl64: "ieee_like fl64"
  unfolding ieee_like_def
  using fl64_mono fl64_idem fl64_of_int fl64_eq_0_iff by (intro conjI allI impI) auto

lemma ieee_like_id: "ieee_like (\<lambda>x. x)"
  by (simp add: ieee_like_def)

section \<open>Risk classification in the rounded reading\<close>

lemma risk_block_fl_id: "risk_block_fl (\<lambda>x. x) T ni = risk_block T ni"
  by (simp add: risk_block_fl_def risk_block_def T_critical_fl_def T_critical_def
      base_limit_fl_def base_limit_def starvation_penalty_fl_def starvation_penalty_def
      py_truediv_fl_def py_truediv_def Let_def)

lemma ieee_like_mono: "ieee_like fl \<Longrightarrow> x \<le> y \<Longrightarrow> fl x \<le> fl y"
  by (simp add: ieee_like_def)

lemma ieee_like_int: "ieee_like fl \<Longrightarrow> \<bar>n\<bar> \<le> 2 ^ 53 \<Longrightarrow> fl (of_int n) = of_int n"
  by (simp add: ieee_like_def)

lemma ieee_like_literals:
  assumes "ieee_like fl"
  shows "fl 0 = 0" "fl 25 = 25" "fl 50 = 50" "fl 75 = 75"
  using ieee_like_int [OF assms, of 0] ieee_like_int [OF assms, of 25]
    ieee_like_int [OF assms, of 50] ieee_like_int [OF assms, of 75]
  by simp_all

lemma ieee_like_nonneg:
  assumes "ieee_like fl" "0 \<le> x"
  shows "0 \<le> fl x"
  using ieee_like_mono [OF assms] ieee_like_literals(1) [OF assms(1)] by simp

lemma ieee_like_difference:
  assumes "ieee_like fl" "y < fl x"  "fl y = y"
  shows "0 < fl (fl x - y)"
proof -
  have "fl (fl x) = fl x" using assms(1) by (simp add: ieee_like_def)
  moreover have "fl x \<noteq> y" using assms(2) by simp
  moreover have "\<forall>x y. fl x = x \<and> fl y = y \<and> x \<noteq> y \<longrightarrow> fl (x - y) \<noteq> 0"
    using assms(1) by (simp add: ieee_like_def)
  ultimately have "fl (fl x - y) \<noteq> 0" using assms(3) by blast
  moreover have "0 \<le> fl x - y" using assms(2) by simp
  then have "0 \<le> fl (fl x - y)" by (rule ieee_like_nonneg [OF assms(1)])
  ultimately show ?thesis by simp
qed

lemma critical_value_fl:
  assumes "ieee_like fl" "a \<le> T"
  shows "py_int (fl (75 + fl (fl (fl (T - a) / 2) * 25))) = \<lfloor>fl (75 + fl (fl (fl (T - a) / 2) * 25))\<rfloor>"
proof -
  note nn = ieee_like_nonneg [OF assms(1)]
  have "0 \<le> T - a" using assms(2) by simp
  then have "0 \<le> fl (T - a)" by (rule nn)
  then have "0 \<le> fl (T - a) / 2" by simp
  then have "0 \<le> fl (fl (T - a) / 2)" by (rule nn)
  then have "0 \<le> fl (fl (T - a) / 2) * 25" by simp
  then have "0 \<le> fl (fl (fl (T - a) / 2) * 25)" by (rule nn)
  then have "75 \<le> 75 + fl (fl (fl (T - a) / 2) * 25)" by simp
  then have "fl 75 \<le> fl (75 + fl (fl (fl (T - a) / 2) * 25))"
    by (rule ieee_like_mono [OF assms(1)])
  then have "0 \<le> fl (75 + fl (fl (fl (T - a) / 2) * 25))"
    using ieee_like_literals(4) [OF assms(1)] by simp
  then show ?thesis by (rule py_int_nonneg)
qed

lemma high_value_fl:
  assumes "ieee_like fl" "25 \<le> T" "0 < d"
  shows "py_int (fl (50 + fl (fl (fl (T - 25) / d) * 25))) = \<lfloor>fl (50 + fl (fl (fl (T - 25) / d) * 25))\<rfloor>"
proof -
  note nn = ieee_like_nonneg [OF assms(1)]
  have "0 \<le> T - 25" using assms(2) by simp
  then have "0 \<le> fl (T - 25)" by (rule nn)
  then have "0 \<le> fl (T - 25) / d" using assms(3) by simp
  then have "0 \<le> fl (fl (T - 25) / d)" by (rule nn)
  then have "0 \<le> fl (fl (T - 25) / d) * 25" by simp
  then have "0 \<le> fl (fl (fl (T - 25) / d) * 25)" by (rule nn)
  then have "50 \<le> 50 + fl (fl (fl (T - 25) / d) * 25)" by simp
  then have "fl 50 \<le> fl (50 + fl (fl (fl (T - 25) / d) * 25))"
    by (rule ieee_like_mono [OF assms(1)])
  then have "0 \<le> fl (50 + fl (fl (fl (T - 25) / d) * 25))"
    using ieee_like_literals(3) [OF assms(1)] by simp
  then show ?thesis by (rule py_int_nonneg)
qed

lemma stable_value_fl:
  assumes "ieee_like fl" "0 \<le> T"
  shows "py_int (fl (fl (T / 25) * 50)) = \<lfloor>fl (fl (T / 25) * 50)\<rfloor>"
proof -
  note nn = ieee_like_nonneg [OF assms(1)]
  have "0 \<le> T / 25" using assms(2) by simp
  then have "0 \<le> fl (T / 25)" by (rule nn)
  then have "0 \<le> fl (T / 25) * 50" by simp
  then have "0 \<le> fl (fl (T / 25) * 50)" by (rule nn)
  then show ?thesis by (rule py_int_nonneg)
qed

text \<open>
  C1, amended. For \<open>NI\<close> in \<open>[0, 1]\<close> and every temperature the branches are tried in
  order, the first match winning: at or above the lethal threshold the result is 100 and
  LETHAL; else within two degrees below it CRITICAL; else from 25 degrees HIGH RISK; else
  STABLE. No division raises. The score is the branch formula cut by \<open>int\<close>, that is
  truncated toward zero, not rounded to nearest: this is the floor in the CRITICAL and
  HIGH RISK branches and, for a temperature of at least zero, in the STABLE branch. The
  threshold and the formulas are evaluated in floating point, every literal and every
  operation rounded, so that the score can be one less than the integer part of the
  exact value: 28 at 14.5 degrees, 54 at 25.9 and 79 at 29.9, each with \<open>NI = 1\<close>.
\<close>

theorem risk_classification_truncates:
  assumes "ieee_like fl" "0 \<le> ni" "ni \<le> 1"
  shows "risk_block_fl fl T ni =
     (if T \<ge> T_critical_fl fl ni then Inr (100, ''LETHAL'')
      else if T \<ge> fl (T_critical_fl fl ni - 2) then
        Inr (\<lfloor>fl (75 + fl (fl (fl (T - fl (T_critical_fl fl ni - 2)) / 2) * 25))\<rfloor>, ''CRITICAL'')
      else if T \<ge> 25 then
        Inr (\<lfloor>fl (50 + fl (fl (fl (T - 25) / fl (fl (T_critical_fl fl ni - 2) - 25)) * 25))\<rfloor>,
             ''HIGH RISK'')
      else Inr (py_int (fl (fl (T / 25) * 50)), ''STABLE''))
     \<and> (0 \<le> T \<longrightarrow> py_int (fl (fl (T / 25) * 50)) = \<lfloor>fl (fl (T / 25) * 50)\<rfloor>)
     \<and> T_critical_fl fl ni = fl (fl 31.5 - fl (fl 1.07 * fl (1 - ni)))"
proof -
  define Tc where "Tc = T_critical_fl fl ni"
  define a where "a = fl (Tc - 2)"
  have r: "risk_block_fl fl T ni =
     (if T \<ge> Tc then Inr (100, ''LETHAL'')
      else if T \<ge> a then
        Inr (py_int (fl (75 + fl (fl (fl (T - a) / 2) * 25))), ''CRITICAL'')
      else if T \<ge> 25 then
        (if fl (a - 25) = 0 then Inl ZeroDivisionError
         else Inr (py_int (fl (50 + fl (fl (fl (T - 25) / fl (a - 25)) * 25))), ''HIGH RISK''))
      else Inr (py_int (fl (fl (T / 25) * 50)), ''STABLE''))"
    by (simp add: risk_block_fl_def Let_def and_then_def py_truediv_fl_def Tc_def a_def)
  have c: "py_int (fl (75 + fl (fl (fl (T - a) / 2) * 25))) = \<lfloor>fl (75 + fl (fl (fl (T - a) / 2) * 25))\<rfloor>"
    if "a \<le> T" using assms(1) that by (rule critical_value_fl)
  have d: "0 < fl (a - 25)" if "25 \<le> T" "T < a"
  proof -
    have "25 < fl (Tc - 2)" using that by (simp add: a_def)
    moreover have "fl 25 = 25" using assms(1) by (rule ieee_like_literals)
    ultimately show ?thesis unfolding a_def by (rule ieee_like_difference [OF assms(1)])
  qed
  have h: "py_int (fl (50 + fl (fl (fl (T - 25) / fl (a - 25)) * 25)))
      = \<lfloor>fl (50 + fl (fl (fl (T - 25) / fl (a - 25)) * 25))\<rfloor>"
    if "25 \<le> T" "T < a" using assms(1) that(1) d [OF that] by (rule high_value_fl)
  have s: "0 \<le> T \<longrightarrow> py_int (fl (fl (T / 25) * 50)) = \<lfloor>fl (fl (T / 25) * 50)\<rfloor>"
    using assms(1) stable_value_fl by blast
  have t: "T_critical_fl fl ni = fl (fl 31.5 - fl (fl 1.07 * fl (1 - ni)))"
    by (simp add: T_critical_fl_def base_limit_fl_def starvation_penalty_fl_def)
  have "risk_block_fl fl T ni =
     (if T \<ge> Tc then Inr (100, ''LETHAL'')
      else if T \<ge> a then
        Inr (\<lfloor>fl (75 + fl (fl (fl (T - a) / 2) * 25))\<rfloor>, ''CRITICAL'')
      else if T \<ge> 25 then
        Inr (\<lfloor>fl (50 + fl (fl (fl (T - 25) / fl (a - 25)) * 25))\<rfloor>, ''HIGH RISK'')
      else Inr (py_int (fl (fl (T / 25) * 50)), ''STABLE''))"
    unfolding r using c h d by (auto simp: not_le)
  then show ?thesis using s t unfolding a_def Tc_def by blast
qed

lemma fl64_63_2: "fl64 (63 / 2) = 63 / 2"
  using fl64_eval [of "63 / 2" 48] by (simp add: round_half_even_def)

lemma fl64_59_2: "fl64 (59 / 2) = 59 / 2"
  using fl64_eval [of "59 / 2" 48] by (simp add: round_half_even_def)

lemma fl64_29_50: "fl64 (29 / 50) = 5224175567749775 / 9007199254740992"
  using fl64_eval [of "29 / 50" 53] by (simp add: round_half_even_def)

lemma fl64_stable_product:
  "fl64 (130604389193744375 / 4503599627370496) = 8162774324609023 / 281474976710656"
  using fl64_eval [of "130604389193744375 / 4503599627370496" 48] by (simp add: round_half_even_def)

lemma T_critical_fl64_1: "T_critical_fl fl64 1 = 63 / 2"
  by (simp add: T_critical_fl_def base_limit_fl_def starvation_penalty_fl_def fl64_zero fl64_63_2)

lemma fl64_259_10: "fl64 (259 / 10) = 3645100948402995 / 140737488355328"
  using fl64_eval [of "259 / 10" 48] by (simp add: round_half_even_def)

lemma fl64_high_numerator: "fl64 (126663739519795 / 140737488355328) = 126663739519795 / 140737488355328"
  using fl64_eval [of "126663739519795 / 140737488355328" 53] by (simp add: round_half_even_def)

lemma fl64_9_2: "fl64 (9 / 2) = 9 / 2"
  using fl64_eval [of "9 / 2" 50] by (simp add: round_half_even_def)

lemma fl64_high_quotient: "fl64 (126663739519795 / 633318697598976) = 3602879701896391 / 18014398509481984"
  using fl64_eval [of "126663739519795 / 633318697598976" 55] by (simp add: round_half_even_def)

lemma fl64_high_product: "fl64 (90071992547409775 / 18014398509481984) = 5629499534213111 / 1125899906842624"
  using fl64_eval [of "90071992547409775 / 18014398509481984" 50] by (simp add: round_half_even_def)

lemma fl64_high_sum: "fl64 (61924494876344311 / 1125899906842624) = 7740561859543039 / 140737488355328"
  using fl64_eval [of "61924494876344311 / 1125899906842624" 47] by (simp add: round_half_even_def)

lemma fl64_299_10: "fl64 (299 / 10) = 4208050901824307 / 140737488355328"
  using fl64_eval [of "299 / 10" 48] by (simp add: round_half_even_def)

lemma fl64_critical_numerator: "fl64 (56294995342131 / 140737488355328) = 56294995342131 / 140737488355328"
  using fl64_eval [of "56294995342131 / 140737488355328" 54] by (simp add: round_half_even_def)

lemma fl64_critical_quotient: "fl64 (56294995342131 / 281474976710656) = 56294995342131 / 281474976710656"
  using fl64_eval [of "56294995342131 / 281474976710656" 55] by (simp add: round_half_even_def)

lemma fl64_critical_product: "fl64 (1407374883553275 / 281474976710656) = 1407374883553275 / 281474976710656"
  using fl64_eval [of "1407374883553275 / 281474976710656" 50] by (simp add: round_half_even_def)

lemma fl64_critical_sum: "fl64 (22517998136852475 / 281474976710656) = 5629499534213119 / 70368744177664"
  using fl64_eval [of "22517998136852475 / 281474976710656" 46] by (simp add: round_half_even_def)

theorem risk_classification_truncates_witness:
  "ieee_like fl64 \<and> 0 \<le> (1::real) \<and> (1::real) \<le> 1
   \<and> risk_block_fl fl64 (29 / 2) 1 = Inr (28, ''STABLE'')
   \<and> risk_block_fl fl64 (fl64 (259 / 10)) 1 = Inr (54, ''HIGH RISK'')
   \<and> risk_block_fl fl64 (fl64 (299 / 10)) 1 = Inr (79, ''CRITICAL'')"
proof -
  have "risk_block_fl fl64 (29 / 2) 1 = Inr (py_int (fl64 (fl64 (29 / 2 / 25) * 50)), ''STABLE'')"
    using risk_classification_truncates [OF ieee_like_fl64, of 1 "29 / 2"]
    by (simp add: T_critical_fl64_1 fl64_59_2)
  moreover have "py_int (fl64 (fl64 (29 / 2 / 25) * 50)) = 28"
    by (simp add: fl64_29_50 fl64_stable_product py_int_def)
  moreover have "risk_block_fl fl64 (3645100948402995 / 140737488355328) 1 = Inr (54, ''HIGH RISK'')"
    using risk_classification_truncates [OF ieee_like_fl64, of 1 "3645100948402995 / 140737488355328"]
    by (simp add: T_critical_fl64_1 fl64_59_2 fl64_high_numerator fl64_9_2 fl64_high_quotient
        fl64_high_product fl64_high_sum)
  moreover have "risk_block_fl fl64 (4208050901824307 / 140737488355328) 1 = Inr (79, ''CRITICAL'')"
    using risk_classification_truncates [OF ieee_like_fl64, of 1 "4208050901824307 / 140737488355328"]
    by (simp add: T_critical_fl64_1 fl64_59_2 fl64_critical_numerator fl64_critical_quotient
        fl64_critical_product fl64_critical_sum)
  ultimately show ?thesis using ieee_like_fl64 by (simp add: fl64_259_10 fl64_299_10)
qed

lemma fl64_249_10: "fl64 (249 / 10) = 3504363460047667 / 140737488355328"
  using fl64_eval [of "249 / 10" 48] by (simp add: round_half_even_def)

lemma fl64_stable_quotient_249: "fl64 (3504363460047667 / 3518437208883200) = 2242792614430507 / 2251799813685248"
  using fl64_eval [of "3504363460047667 / 3518437208883200" 53] by (simp add: round_half_even_def)

lemma fl64_stable_product_249: "fl64 (56069815360762675 / 1125899906842624) = 3504363460047667 / 70368744177664"
  using fl64_eval [of "56069815360762675 / 1125899906842624" 47] by (simp add: round_half_even_def)

text \<open>
  At 24.9 degrees and \<open>NI = 1\<close> the STABLE formula gives 49.8: the code reports 49, in
  the exact and in the rounded reading; rounding to nearest would give 50.
\<close>

theorem risk_round_counterexample:
  "risk_block (249 / 10) 1 = Inr (49, ''STABLE'')
   \<and> round ((249 / 10 :: real) / 25 * 50) = (50 :: int)
   \<and> risk_block_fl fl64 (fl64 (249 / 10)) 1 = Inr (49, ''STABLE'')"
proof -
  have "risk_block_fl fl64 (fl64 (249 / 10)) 1 = Inr (49, ''STABLE'')"
    by (simp add: risk_block_fl_def Let_def and_then_def py_truediv_fl_def T_critical_fl64_1
        fl64_59_2 fl64_249_10 fl64_stable_quotient_249 fl64_stable_product_249 py_int_def)
  then show ?thesis
    by (simp add: risk_block_unfold T_critical_eq py_int_def round_def)
qed

section \<open>Live reading with fallback\<close>
















lemma fl64_1_10: "fl64 (1 / 10) = 3602879701896397 / 36028797018963968"
  using fl64_eval [of "1 / 10" 56] by (simp add: round_half_even_def)





section \<open>Population forecast: the series and the collapse year\<close>

lemma exp_13_20_le_2: "exp (13 / 20 :: real) \<le> 2"
proof -
  have "exp (13 / 80 :: real) \<le> 1 + 13 / 80 + (13 / 80)\<^sup>2"
    by (rule exp_bound) simp_all
  then have "exp (13 / 80 :: real) ^ 4 \<le> (1 + 13 / 80 + (13 / 80)\<^sup>2) ^ 4"
    by (intro power_mono) simp_all
  moreover have "exp (13 / 80 :: real) ^ 4 = exp (13 / 20)"
    using exp_of_nat_mult [of 4 "13 / 80 :: real"] by simp
  moreover have "(1 + 13 / 80 + (13 / 80)\<^sup>2) ^ 4 \<le> (2 :: real)"
    by (simp add: power2_eq_square power4_eq_xxxx)
  ultimately show ?thesis by linarith
qed

lemma exp_7_10_gt_2: "2 < exp (7 / 10 :: real)"
proof -
  have "1 + 7 / 40 + (7 / 40)\<^sup>2 / 2 \<le> exp (7 / 40 :: real)"
    by (rule exp_lower_Taylor_quadratic) simp
  then have "(1 + 7 / 40 + (7 / 40)\<^sup>2 / 2) ^ 4 \<le> exp (7 / 40 :: real) ^ 4"
    by (intro power_mono) simp_all
  moreover have "exp (7 / 40 :: real) ^ 4 = exp (7 / 10)"
    using exp_of_nat_mult [of 4 "7 / 40 :: real"] by simp
  moreover have "(2 :: real) < (1 + 7 / 40 + (7 / 40)\<^sup>2 / 2) ^ 4"
    by (simp add: power2_eq_square power4_eq_xxxx)
  ultimately show ?thesis by linarith
qed

lemma exp_6_5_gt_2: "2 < exp (6 / 5 :: real)"
  using exp_ge_add_one_self [of "6 / 5 :: real"] by simp

lemma hd_filter_upt:
  assumes "i < n" "Q i" "\<forall>j<i. \<not> Q j"
  shows "hd (filter Q [0..<n]) = i"
proof -
  have "[0..<n] = [0..<i] @ i # [Suc i..<n]"
    using assms(1) by (metis le0 less_imp_le_nat upt_add_eq_append upt_conv_Cons le_add_diff_inverse)
  moreover have "filter Q [0..<i] = []" using assms(3) by (simp add: filter_empty_conv)
  ultimately show ?thesis using assms(2) by simp
qed

lemma first_index_find:
  assumes "length ys = length xs"
  shows "(if list_ex P xs then Some (ys ! hd (filter (\<lambda>i. P (xs ! i)) [0..<length xs])) else None)
         = map_option fst (List.find (\<lambda>(y, x). P x) (zip ys xs))"
proof (cases "list_ex P xs")
  case False
  then have "List.find (\<lambda>(y, x). P x) (zip ys xs) = None"
    by (auto simp: find_None_iff list_ex_iff dest: set_zip_rightD)
  with False show ?thesis by simp
next
  case True
  then have "\<exists>i. i < length xs \<and> P (xs ! i)" by (auto simp: list_ex_iff in_set_conv_nth)
  then obtain i where i: "i < length xs" "P (xs ! i)" "\<forall>j<i. \<not> (j < length xs \<and> P (xs ! j))"
    using exists_least_iff [of "\<lambda>i. i < length xs \<and> P (xs ! i)"] by auto
  then have least: "\<forall>j<i. \<not> P (xs ! j)" by auto
  have "hd (filter (\<lambda>i. P (xs ! i)) [0..<length xs]) = i"
    using i(1,2) least by (rule hd_filter_upt)
  moreover have "List.find (\<lambda>(y, x). P x) (zip ys xs) = Some (ys ! i, xs ! i)"
    using i(1,2) least assms by (auto simp: find_Some_iff intro!: exI [of _ i])
  ultimately show ?thesis using True by simp
qed

lemma length_years: "length years = 25"
  by (simp add: years_def)

lemma length_population: "length (population risk) = 25"
  by (simp add: population_def length_years)

lemma find_zip_map:
  "map_option fst (List.find (\<lambda>(y, x). P x) (zip ys (map f ys))) = List.find (\<lambda>y. P (f y)) ys"
  by (induction ys) auto

lemma collapse_year_find:
  "collapse_year risk =
     List.find (\<lambda>y. 100 * exp (- decay_rate risk * of_int (y - 2026)) < 50) years"
proof -
  have "collapse_year risk =
      map_option fst (List.find (\<lambda>(y, x). x < 50) (zip years (population risk)))"
    unfolding collapse_year_def Let_def
    by (rule first_index_find) (simp add: length_years length_population)
  then show ?thesis
    unfolding population_def by (simp only: find_zip_map)
qed

lemma zip_map_self: "zip ys (map f ys) = map (\<lambda>y. (y, f y)) ys"
  by (induction ys) simp_all

lemma decay_rate_eq: "decay_rate risk = 0.05 + of_int risk / 500"
  by (simp add: decay_rate_def)

lemma nth_years:
  assumes "i < 25"
  shows "years ! i = 2026 + int i"
proof -
  have "2026 + int i \<le> 2050" using assms by simp
  then show ?thesis by (simp only: years_def nth_upto)
qed

lemma set_years: "set years = {2026..2050}"
  by (simp only: years_def set_upto)

lemma below_half_iff: "100 * exp (- x) < (50::real) \<longleftrightarrow> 2 < exp x"
proof -
  have "100 * (1 / e) < 50 \<longleftrightarrow> 2 < e" if "0 < e" for e :: real
    using that by (simp add: field_simps)
  then have "100 * (1 / exp x) < 50 \<longleftrightarrow> 2 < exp x" by simp
  then show ?thesis by (simp only: exp_minus')
qed

text \<open>
  C7. The forecast has 25 entries, one for each year from 2026 to 2050; the decay rate
  is \<open>0.05 + risk / 500\<close>; the entry of a year is
  \<open>100 * exp (- decay_rate * (year - 2026))\<close>; the collapse year is the first year of
  the sequence whose entry is below 50, or none. All of it is a function of the risk
  score alone.
\<close>

theorem population_projection:
  "years = [2026..2050]
   \<and> length (zip years (population risk)) = 25
   \<and> zip years (population risk) =
       map (\<lambda>y. (y, 100 * exp (- (0.05 + of_int risk / 500) * of_int (y - 2026)))) years
   \<and> decay_rate risk = 0.05 + of_int risk / 500
   \<and> collapse_year risk =
       List.find (\<lambda>y. 100 * exp (- (0.05 + of_int risk / 500) * of_int (y - 2026)) < (50::real)) years"
proof (intro conjI)
  show "years = [2026..2050]" by (rule years_def)
  show "length (zip years (population risk)) = 25"
    by (simp only: length_zip length_years length_population min.idem)
  have "zip years (population risk) =
       map (\<lambda>y. (y, 100 * exp (- decay_rate risk * of_int (y - 2026)))) years"
    unfolding population_def by (rule zip_map_self)
  then show "zip years (population risk) =
       map (\<lambda>y. (y, 100 * exp (- (0.05 + of_int risk / 500) * of_int (y - 2026)))) years"
    by (simp only: decay_rate_eq)
  show "decay_rate risk = 0.05 + of_int risk / 500" by (rule decay_rate_eq)
  show "collapse_year risk =
       List.find (\<lambda>y. 100 * exp (- (0.05 + of_int risk / 500) * of_int (y - 2026)) < (50::real)) years"
    using collapse_year_find [of risk] by (simp only: decay_rate_eq)
qed

lemma population_nth: "i < 25 \<Longrightarrow> population risk ! i = 100 * exp (- decay_rate risk * of_nat i)"
  by (simp add: population_def length_years nth_years)

lemma population_0_decreasing:
  assumes "i < j" "j < 25"
  shows "population 0 ! j < population 0 ! i"
proof -
  have "i < 25" using assms by simp
  then show ?thesis using assms by (simp add: population_nth decay_rate_def)
qed

lemma collapse_year_0: "collapse_year 0 = Some 2040"
proof -
  let ?P = "\<lambda>y::int. 100 * exp (- decay_rate 0 * of_int (y - 2026)) < (50::real)"
  have P: "?P (2026 + int k) \<longleftrightarrow> 2 < exp (real k / 20)" for k
    using below_half_iff [of "real k / 20"] by (simp add: decay_rate_def)
  have "?P (years ! 14)"
    using P [of 14] exp_7_10_gt_2 by (simp add: nth_years)
  moreover have "\<not> ?P (years ! j)" if "j < 14" for j
  proof -
    have "real j / 20 \<le> 13 / 20" using that by simp
    then have "exp (real j / 20) \<le> exp (13 / 20 :: real)" by (simp only: exp_le_cancel_iff)
    then have "\<not> 2 < exp (real j / 20)" using exp_13_20_le_2 by linarith
    moreover have "j < 25" using that by simp
    ultimately show ?thesis using P [of j] by (simp add: nth_years)
  qed
  moreover have "years ! 14 = 2040" by (simp add: nth_years)
  ultimately have "List.find ?P years = Some 2040"
    unfolding find_Some_iff using length_years by (intro exI [of _ 14]) simp
  then show ?thesis by (simp only: collapse_year_find)
qed

lemma collapse_year_defined:
  assumes "0 \<le> risk"
  shows "\<exists>y. collapse_year risk = Some y \<and> y \<in> set years"
proof -
  let ?P = "\<lambda>y::int. 100 * exp (- decay_rate risk * of_int (y - 2026)) < (50::real)"
  have "6 / 5 \<le> decay_rate risk * 24" using assms by (simp add: decay_rate_def)
  then have "exp (6 / 5 :: real) \<le> exp (decay_rate risk * 24)" by (simp only: exp_le_cancel_iff)
  then have "2 < exp (decay_rate risk * 24)" using exp_6_5_gt_2 by linarith
  then have "100 * exp (- (decay_rate risk * 24)) < 50" by (simp only: below_half_iff)
  then have "?P 2050" by simp
  moreover have "2050 \<in> set years" by (simp add: set_years)
  ultimately have "List.find ?P years \<noteq> None" unfolding find_None_iff by blast
  then obtain y where y: "List.find ?P years = Some y" by blast
  then have "y \<in> set years" unfolding find_Some_iff by auto
  then show ?thesis using y by (simp only: collapse_year_find) simp
qed

text \<open>
  C8. For every risk score in \<open>[0, 100]\<close> the collapse year is defined and lies within
  the horizon. For the risk score 0 the decay rate is 0.05, the series is strictly
  decreasing, and the collapse year is 2040.
\<close>

theorem collapse_always_defined:
  "(0 \<le> risk \<and> risk \<le> 100 \<longrightarrow> (\<exists>y. collapse_year risk = Some y \<and> 2026 \<le> y \<and> y \<le> 2050))
   \<and> decay_rate 0 = 0.05
   \<and> (\<forall>i j. i < j \<and> j < 25 \<longrightarrow> population 0 ! j < population 0 ! i)
   \<and> collapse_year 0 = Some 2040"
proof -
  have "\<exists>y. collapse_year risk = Some y \<and> 2026 \<le> y \<and> y \<le> 2050" if "0 \<le> risk"
    using collapse_year_defined [OF that] by (simp add: set_years)
  moreover have "decay_rate 0 = 0.05" by (simp add: decay_rate_def)
  ultimately show ?thesis using population_0_decreasing collapse_year_0 by blast
qed

theorem collapse_always_defined_witness:
  "0 \<le> (100::int) \<and> (100::int) \<le> 100
   \<and> (\<exists>y. collapse_year 100 = Some y \<and> 2026 \<le> y \<and> y \<le> 2050)
   \<and> (3::nat) < 7 \<and> (7::nat) < 25 \<and> population 0 ! 7 < population 0 ! 3"
  using collapse_always_defined [of 100] by simp

section \<open>Agreement of the two source files\<close>

lemma temp_shift_69_eq: "temp_shift_69 scenario = temp_shift scenario"
  unfolding temp_shift_69_def temp_shift_def by (rule refl)

lemma T_critical_69_eq: "T_critical_69 ni = T_critical ni"
  unfolding T_critical_69_def T_critical_def base_limit_69_def base_limit_def
    starvation_penalty_69_def starvation_penalty_def by (rule refl)

lemma risk_block_69_eq: "risk_block_69 T ni = risk_block T ni"
  unfolding risk_block_69_def risk_block_def T_critical_69_eq by (rule refl)

lemma SMR_69_eq: "SMR_69 T = SMR T"
  unfolding SMR_69_def SMR_def by (rule refl)

lemma Q10_69_eq: "Q10_69 T = Q10 T"
  unfolding Q10_69_def Q10_def by (rule refl)

lemma years_69_eq: "years_69 = years"
  unfolding years_69_def years_def by (rule refl)

lemma decay_rate_69_eq: "decay_rate_69 risk = decay_rate risk"
  unfolding decay_rate_69_def decay_rate_def by (rule refl)

lemma population_69_eq: "population_69 risk = population risk"
  unfolding population_69_def population_def decay_rate_69_eq years_69_eq by (rule refl)

lemma collapse_year_69_eq: "collapse_year_69 risk = collapse_year risk"
  unfolding collapse_year_69_def collapse_year_def population_69_eq years_69_eq by (rule refl)

lemma core_69_eq: "core_69 temp scenario ni = core temp scenario ni"
  unfolding core_69_def core_def temp_shift_69_eq T_critical_69_eq risk_block_69_eq SMR_69_eq
    Q10_69_eq decay_rate_69_eq years_69_eq population_69_eq collapse_year_69_eq
  by (rule refl)

text \<open>
  C9. On the same resolved temperature, scenario and \<open>NI\<close>, the computations of
  stefpro69.py equal those of stefpro.py: the effective temperature, the lethal
  threshold, the risk score with its status, \<open>SMR = 72.4 * exp (0.0567 * T)\<close>, Q10,
  the decay rate, the 25-year series and the collapse year.
\<close>

theorem source_files_agree:
  "core_69 temp scenario ni = core temp scenario ni
   \<and> temp + temp_shift_69 scenario = temp + temp_shift scenario
   \<and> T_critical_69 ni = T_critical ni
   \<and> risk_block_69 T ni = risk_block T ni
   \<and> SMR_69 T = SMR T \<and> SMR T = 72.4 * exp (0.0567 * T)
   \<and> Q10_69 T = Q10 T
   \<and> decay_rate_69 risk = decay_rate risk
   \<and> zip years_69 (population_69 risk) = zip years (population risk)
   \<and> collapse_year_69 risk = collapse_year risk"
  by (simp only: core_69_eq temp_shift_69_eq T_critical_69_eq risk_block_69_eq SMR_69_eq
      Q10_69_eq decay_rate_69_eq years_69_eq population_69_eq collapse_year_69_eq SMR_def simp_thms)

end
